theory Spec2Isabelle
  imports Main "HOL-Library.Sublist"
begin

section \<open>The URL converter: platform detection, path adjustment, URL construction\<close>

text \<open>
  The development follows \<^verbatim>\<open>src/src/createSampleUrl.js\<close>: \<^verbatim>\<open>detectPlatform\<close>,
  \<^verbatim>\<open>adjustPathForPlatform\<close>, \<^verbatim>\<open>getXgetDomain\<close>, \<^verbatim>\<open>performUrlConversion\<close>,
  \<^verbatim>\<open>isValidUrl\<close> and \<^verbatim>\<open>handleUrlInput\<close>.

  Strings are lists of 8-bit code units. The strings the converter compares against
  (\<^verbatim>\<open>"/homebrew/"\<close>, \<^verbatim>\<open>"/api"\<close>, \<^verbatim>\<open>"ghcr.io"\<close>, ...) are ASCII, and the \<^verbatim>\<open>hostname\<close>,
  \<^verbatim>\<open>pathname\<close> and \<^verbatim>\<open>search\<close> of a URL object are ASCII serialisations.
\<close>

subsection \<open>The URL object\<close>

text \<open>
  \<^verbatim>\<open>new URL(s)\<close> is the platform's constructor, not code of the repository. It is a
  parameter of every function that calls it: a function from strings to URL objects that
  returns \<open>None\<close> where the constructor throws. The record keeps the components of a
  URL object; the converter reads \<^verbatim>\<open>hostname\<close>, \<^verbatim>\<open>pathname\<close> and \<^verbatim>\<open>search\<close> only.
\<close>

record url =
  protocol :: string
  username :: string
  password :: string
  hostname :: string
  port :: string
  pathname :: string
  search :: string
  hash :: string

type_synonym url_parser = "string \<Rightarrow> url option"

subsection \<open>String operations of the language\<close>

definition startsWith :: "string \<Rightarrow> string \<Rightarrow> bool" where
  "startsWith s p = prefix p s"

definition endsWith :: "string \<Rightarrow> string \<Rightarrow> bool" where
  "endsWith s p = suffix p s"

text \<open>\<^verbatim>\<open>s.includes(p)\<close>: \<open>p\<close> occurs in \<open>s\<close> at some position.\<close>

fun includesStr :: "string \<Rightarrow> string \<Rightarrow> bool" where
  "includesStr [] p = (p = [])"
| "includesStr (c # cs) p = (if prefix p (c # cs) then True else includesStr cs p)"

text \<open>\<^verbatim>\<open>s.split(sep)\<close> for a one-character separator: never the empty list.\<close>

fun splitOn :: "char \<Rightarrow> string \<Rightarrow> string list" where
  "splitOn sep [] = [[]]"
| "splitOn sep (c # cs) =
     (if c = sep then [] # splitOn sep cs
      else (c # hd (splitOn sep cs)) # tl (splitOn sep cs))"

text \<open>\<^verbatim>\<open>parts.join(sep)\<close>.\<close>

fun joinWith :: "string \<Rightarrow> string list \<Rightarrow> string" where
  "joinWith sep [] = []"
| "joinWith sep [x] = x"
| "joinWith sep (x # y # ys) = x @ sep @ joinWith sep (y # ys)"

text \<open>\<^verbatim>\<open>parts.slice(-2)\<close>: the last two elements, or all of them when there are fewer.\<close>

definition sliceLast2 :: "'a list \<Rightarrow> 'a list" where
  "sliceLast2 xs = drop (length xs - 2) xs"

text \<open>
  \<^verbatim>\<open>toLowerCase\<close> on one code unit. Only \<^verbatim>\<open>A\<close>..\<^verbatim>\<open>Z\<close> change: a code unit from 128 on
  never becomes an ASCII letter, so leaving it as it is changes no comparison with an
  ASCII string.
\<close>

definition toLowerChar :: "char \<Rightarrow> char" where
  "toLowerChar c =
     (let n = (of_char c :: nat) in if 65 \<le> n \<and> n \<le> 90 then char_of (n + 32) else c)"

definition toLowerCase :: "string \<Rightarrow> string" where
  "toLowerCase s = map toLowerChar s"

text \<open>
  \<^verbatim>\<open>trim\<close>: white space and line terminators are removed at both ends. Among the
  8-bit code units these are 9 to 13, 32 and 160.
\<close>

definition isWhiteSpace :: "char \<Rightarrow> bool" where
  "isWhiteSpace c = (let n = (of_char c :: nat) in (9 \<le> n \<and> n \<le> 13) \<or> n = 32 \<or> n = 160)"

definition trim :: "string \<Rightarrow> string" where
  "trim s = rev (dropWhile isWhiteSpace (rev (dropWhile isWhiteSpace s)))"

subsection \<open>Platform detection\<close>

text \<open>
  \<^verbatim>\<open>platformsData\<close> is an object from platform keys to base URLs. The loops run over
  \<^verbatim>\<open>Object.entries(platformsData)\<close>, so the registry is the list of its entries in
  that order.
\<close>

type_synonym registry = "(string \<times> string) list"

record platform =
  key :: string
  name :: string
  baseUrl :: string

definition getPlatformDisplayName :: "string \<Rightarrow> string \<Rightarrow> string" where
  "getPlatformDisplayName k u = k"

definition mkPlatform :: "string \<Rightarrow> string \<Rightarrow> platform" where
  "mkPlatform k b = \<lparr>key = k, name = getPlatformDisplayName k b, baseUrl = b\<rparr>"

text \<open>
  Priority 1, the first loop. An entry whose base URL makes the constructor throw is
  passed over by the \<^verbatim>\<open>catch\<close> with \<^verbatim>\<open>continue\<close>.
\<close>

fun exactScan :: "url_parser \<Rightarrow> string \<Rightarrow> registry \<Rightarrow> platform option" where
  "exactScan parse h [] = None"
| "exactScan parse h ((k, b) # es) =
     (case parse b of
        None \<Rightarrow> exactScan parse h es
      | Some baseUrlObj \<Rightarrow>
          if h = hostname baseUrlObj then Some (mkPlatform k b)
          else exactScan parse h es)"

text \<open>Priority 3, the second loop.\<close>

fun subdomainScan :: "url_parser \<Rightarrow> string \<Rightarrow> registry \<Rightarrow> platform option" where
  "subdomainScan parse h [] = None"
| "subdomainScan parse h ((k, b) # es) =
     (case parse b of
        None \<Rightarrow> subdomainScan parse h es
      | Some baseUrlObj \<Rightarrow>
          if endsWith h (''.'' @ hostname baseUrlObj) then Some (mkPlatform k b)
          else subdomainScan parse h es)"

text \<open>Priority 4, the third loop.\<close>

definition lastTwoLabels :: "string \<Rightarrow> string" where
  "lastTwoLabels h = joinWith ''.'' (sliceLast2 (splitOn (CHR ''.'') h))"

fun baseDomainScan :: "url_parser \<Rightarrow> string \<Rightarrow> registry \<Rightarrow> platform option" where
  "baseDomainScan parse h [] = None"
| "baseDomainScan parse h ((k, b) # es) =
     (case parse b of
        None \<Rightarrow> baseDomainScan parse h es
      | Some baseUrlObj \<Rightarrow>
          (let baseDomain = lastTwoLabels (hostname baseUrlObj);
               urlDomain = lastTwoLabels h
           in if baseDomain = urlDomain \<and> includesStr baseDomain ''.''
              then Some (mkPlatform k b)
              else baseDomainScan parse h es))"

text \<open>
  \<^verbatim>\<open>detectPlatform\<close>. \<open>None\<close> is the \<^verbatim>\<open>null\<close> the function returns, both at its last
  line and in the outer \<^verbatim>\<open>catch\<close>.
\<close>

definition detectPlatform :: "url_parser \<Rightarrow> registry \<Rightarrow> string \<Rightarrow> platform option" where
  "detectPlatform parse platformsData u =
     (case parse u of
        None \<Rightarrow> None
      | Some urlObj \<Rightarrow>
          (case exactScan parse (hostname urlObj) platformsData of
             Some p \<Rightarrow> Some p
           | None \<Rightarrow>
               if hostname urlObj = ''ghcr.io'' then
                 (if includesStr (pathname urlObj) ''/v2/homebrew/''
                  then Some \<lparr>key = ''homebrew-bottles'',
                             name = getPlatformDisplayName ''homebrew-bottles'' ''https://ghcr.io'',
                             baseUrl = ''https://ghcr.io''\<rparr>
                  else Some \<lparr>key = ''cr-ghcr'',
                             name = getPlatformDisplayName ''cr-ghcr'' ''https://ghcr.io'',
                             baseUrl = ''https://ghcr.io''\<rparr>)
               else if hostname urlObj = ''github.com'' then
                 (if startsWith (toLowerCase (pathname urlObj)) ''/homebrew/''
                  then Some \<lparr>key = ''homebrew'',
                             name = getPlatformDisplayName ''homebrew'' ''https://github.com/Homebrew'',
                             baseUrl = ''https://github.com/Homebrew''\<rparr>
                  else Some \<lparr>key = ''gh'',
                             name = getPlatformDisplayName ''gh'' ''https://github.com'',
                             baseUrl = ''https://github.com''\<rparr>)
               else
                 (case subdomainScan parse (hostname urlObj) platformsData of
                    Some p \<Rightarrow> Some p
                  | None \<Rightarrow> baseDomainScan parse (hostname urlObj) platformsData)))"

text \<open>
  The tests the three loops make on one registry entry, and the object they return for
  it. An entry whose base URL does not parse passes none of the tests.
\<close>

definition exactHit :: "url_parser \<Rightarrow> string \<Rightarrow> string \<times> string \<Rightarrow> bool" where
  "exactHit parse h e = (case parse (snd e) of None \<Rightarrow> False | Some v \<Rightarrow> h = hostname v)"

definition subdomainHit :: "url_parser \<Rightarrow> string \<Rightarrow> string \<times> string \<Rightarrow> bool" where
  "subdomainHit parse h e =
     (case parse (snd e) of None \<Rightarrow> False | Some v \<Rightarrow> suffix (''.'' @ hostname v) h)"

definition baseDomainHit :: "url_parser \<Rightarrow> string \<Rightarrow> string \<times> string \<Rightarrow> bool" where
  "baseDomainHit parse h e =
     (case parse (snd e) of
        None \<Rightarrow> False
      | Some v \<Rightarrow> lastTwoLabels (hostname v) = lastTwoLabels h
                   \<and> CHR ''.'' \<in> set (lastTwoLabels (hostname v)))"

definition entryPlatform :: "string \<times> string \<Rightarrow> platform" where
  "entryPlatform e = \<lparr>key = fst e, name = fst e, baseUrl = snd e\<rparr>"

subsection \<open>Regular expressions of the converter\<close>

text \<open>
  Without the \<^verbatim>\<open>s\<close> flag the dot of a regular expression matches every code unit but
  the line terminators; among the 8-bit code units these are line feed and carriage return.
\<close>

definition lineTerminator :: "char \<Rightarrow> bool" where
  "lineTerminator c = (c = CHR 0x0A \<or> c = CHR 0x0D)"

text \<open>
  \<^verbatim>\<open>path.match(/^\/([^\/]+)\/([^\/]+)\/blob\/(.+)$/)\<close>, returning the three groups.
  A group \<^verbatim>\<open>[^\/]+\<close> followed by \<^verbatim>\<open>\/\<close> can only be the whole run of characters up to
  the next slash, so the match is found without backtracking: a slash, a non-empty run,
  a slash, a non-empty run, the text \<^verbatim>\<open>/blob/\<close>, then one or more characters matched by the
  dot up to the end of the string.
\<close>

definition blobMatch :: "string \<Rightarrow> (string \<times> string \<times> string) option" where
  "blobMatch path =
     (case path of
        [] \<Rightarrow> None
      | c # r0 \<Rightarrow>
          if c \<noteq> CHR ''/'' then None
          else
            (let owner = takeWhile (\<lambda>x. x \<noteq> CHR ''/'') r0;
                 r1 = dropWhile (\<lambda>x. x \<noteq> CHR ''/'') r0
             in if owner = [] then None
                else
                  (case r1 of
                     [] \<Rightarrow> None
                   | s # r2 \<Rightarrow>
                       (let repo = takeWhile (\<lambda>x. x \<noteq> CHR ''/'') r2;
                            r3 = dropWhile (\<lambda>x. x \<noteq> CHR ''/'') r2
                        in if repo = [] then None
                           else if \<not> prefix ''/blob/'' r3 then None
                           else
                             (let branchAndFile = drop 6 r3
                              in if branchAndFile = [] then None
                                 else if list_ex lineTerminator branchAndFile then None
                                 else Some (owner, repo, branchAndFile))))))"

text \<open>
  With the \<^verbatim>\<open>i\<close> flag and without the \<^verbatim>\<open>u\<close> flag two code units match when their
  upper-case forms agree, and a code unit from 128 on is never identified with an ASCII
  one. Only \<^verbatim>\<open>a\<close>..\<^verbatim>\<open>z\<close> change here, which settles every comparison with an ASCII
  pattern.
\<close>

definition canonicalize :: "char \<Rightarrow> char" where
  "canonicalize c =
     (let n = (of_char c :: nat) in if 97 \<le> n \<and> n \<le> 122 then char_of (n - 32) else c)"

text \<open>
  \<^verbatim>\<open>path.replace(/^PAT/i, "")\<close> for a pattern \<open>PAT\<close> of literal characters: the pattern
  is anchored at the start, so at most one occurrence is removed. The converter uses it
  with \<^verbatim>\<open>/^\/[Hh]omebrew/i\<close> (under \<^verbatim>\<open>i\<close> the class \<^verbatim>\<open>[Hh]\<close> matches what \<^verbatim>\<open>h\<close>
  matches) and with \<^verbatim>\<open>/^\/api/i\<close>.
\<close>

definition removeLeadingIgnoreCase :: "string \<Rightarrow> string \<Rightarrow> string" where
  "removeLeadingIgnoreCase pat s =
     (if length pat \<le> length s \<and> map canonicalize (take (length pat) s) = map canonicalize pat
      then drop (length pat) s else s)"

text \<open>\<^verbatim>\<open>domain.replace(/\/$/, "")\<close>: one slash at the very end is removed.\<close>

definition removeTrailingSlash :: "string \<Rightarrow> string" where
  "removeTrailingSlash s = (if s \<noteq> [] \<and> last s = CHR ''/'' then butlast s else s)"

subsection \<open>Path adjustment\<close>

text \<open>
  \<^verbatim>\<open>adjustPathForPlatform(path, platformKey, urlObj)\<close>; the third argument is never
  read. The successive assignments to \<^verbatim>\<open>path\<close> are the successive bindings below.
\<close>

definition adjustPathForPlatform :: "string \<Rightarrow> string \<Rightarrow> string" where
  "adjustPathForPlatform path platformKey =
     (let path1 =
            (if platformKey = ''gh'' then
               (case blobMatch path of
                  None \<Rightarrow> path
                | Some (owner, repo, branchAndFile) \<Rightarrow>
                    (let parts = splitOn (CHR ''/'') branchAndFile
                     in if 2 \<le> length parts then
                          ''/'' @ owner @ ''/'' @ repo @ ''/raw/refs/heads/'' @ parts ! 0
                            @ ''/'' @ joinWith ''/'' (drop 1 parts)
                        else if length parts = 1 then
                          ''/'' @ owner @ ''/'' @ repo @ ''/raw/refs/heads/'' @ parts ! 0 @ ''/''
                        else path))
             else path);
          path2 =
            (if platformKey = ''homebrew'' then
               (let p = removeLeadingIgnoreCase ''/homebrew'' path1
                in if p = [] \<or> p = ''/'' then [] else p)
             else path1);
          path3 =
            (if platformKey = ''homebrew-api'' then
               (let p = removeLeadingIgnoreCase ''/api'' path2
                in if p = [] \<or> p = ''/'' then [] else p)
             else path2)
      in if \<not> startsWith path3 ''/'' \<and> path3 \<noteq> [] then ''/'' @ path3 else path3)"

subsection \<open>The gateway domain and the converted URL\<close>

definition isValidUrl :: "url_parser \<Rightarrow> string \<Rightarrow> bool" where
  "isValidUrl parse s = (case parse s of None \<Rightarrow> False | Some u \<Rightarrow> True)"

definition defaultXgetDomain :: string where
  "defaultXgetDomain = ''https://xget.a1u06h9fe9y5bozbmgz3.qzz.io''"

text \<open>\<^verbatim>\<open>getXgetDomain\<close>; \<open>xgetDomainValue\<close> is the value of the domain input field.\<close>

definition getXgetDomain :: "url_parser \<Rightarrow> string \<Rightarrow> string" where
  "getXgetDomain parse xgetDomainValue =
     (let domain = trim xgetDomainValue
      in if domain \<noteq> [] \<and> isValidUrl parse domain then removeTrailingSlash domain
         else defaultXgetDomain)"

text \<open>
  \<^verbatim>\<open>performUrlConversion\<close>: the result is the string written to the output field, or
  the failure its \<^verbatim>\<open>catch\<close> reports when the constructor throws.
\<close>

datatype conversion_error = ConversionFailed

definition performUrlConversion ::
    "url_parser \<Rightarrow> string \<Rightarrow> string \<Rightarrow> platform \<Rightarrow> conversion_error + string" where
  "performUrlConversion parse xgetDomainValue u detectedPlatform =
     (case parse u of
        None \<Rightarrow> Inl ConversionFailed
      | Some urlObj \<Rightarrow>
          (let path0 = pathname urlObj;
               path1 = (if search urlObj \<noteq> [] then path0 @ search urlObj else path0);
               path = adjustPathForPlatform path1 (key detectedPlatform);
               platformPrefix = key detectedPlatform;
               xgetDomain = getXgetDomain parse xgetDomainValue
           in Inr (xgetDomain @ ''/'' @ platformPrefix @ path)))"

text \<open>
  \<^verbatim>\<open>handleUrlInput\<close>: what the handler shows for the value of the URL input field. The
  two messages of \<^verbatim>\<open>showPlatformError\<close> are the two constructors of \<open>message\<close>: the
  one for a URL of invalid format and the one for an unsupported or unrecognised platform.
\<close>

datatype message = InvalidUrlFormat | PlatformUnsupported

datatype outcome =
    Cleared
  | PlatformError message
  | PlatformDetected platform "conversion_error + string"

definition handleUrlInput :: "url_parser \<Rightarrow> registry \<Rightarrow> string \<Rightarrow> string \<Rightarrow> outcome" where
  "handleUrlInput parse platformsData xgetDomainValue originalUrlValue =
     (let u = trim originalUrlValue
      in if u = [] then Cleared
         else if \<not> isValidUrl parse u then PlatformError InvalidUrlFormat
         else
           (case detectPlatform parse platformsData u of
              Some detectedPlatform \<Rightarrow>
                PlatformDetected detectedPlatform
                  (performUrlConversion parse xgetDomainValue u detectedPlatform)
            | None \<Rightarrow> PlatformError PlatformUnsupported))"

subsection \<open>URL objects of the examples\<close>

text \<open>
  A finite excerpt of the constructor: the URL objects it returns for the URLs used in the
  examples below. Every other string is treated as one on which it throws; the examples
  apply the excerpt to the listed URLs and to strings that are not URLs
  (\<^verbatim>\<open>not a url\<close>, \<^verbatim>\<open>gw.example\<close>) only.
\<close>

definition httpsUrl :: "string \<Rightarrow> string \<Rightarrow> url" where
  "httpsUrl h p = \<lparr>protocol = ''https:'', username = [], password = [], hostname = h,
                   port = [], pathname = p, search = [], hash = []\<rparr>"

definition exampleURL :: url_parser where
  "exampleURL s =
     (if s = ''https://github.com'' then Some (httpsUrl ''github.com'' ''/'')
      else if s = ''https://github.com/Homebrew'' then Some (httpsUrl ''github.com'' ''/Homebrew'')
      else if s = ''https://ghcr.io'' then Some (httpsUrl ''ghcr.io'' ''/'')
      else if s = ''https://npmjs.org'' then Some (httpsUrl ''npmjs.org'' ''/'')
      else if s = ''https://registry.npmjs.org'' then Some (httpsUrl ''registry.npmjs.org'' ''/'')
      else if s = ''https://registry.npmjs.org/react''
        then Some (httpsUrl ''registry.npmjs.org'' ''/react'')
      else if s = ''https://ghcr.io/v2/homebrew/core/wget/manifests/1.24''
        then Some (httpsUrl ''ghcr.io'' ''/v2/homebrew/core/wget/manifests/1.24'')
      else if s = ''https://ghcr.io/v2/owner/image/tags/list''
        then Some (httpsUrl ''ghcr.io'' ''/v2/owner/image/tags/list'')
      else if s = ''https://github.com/Homebrew/brew''
        then Some (httpsUrl ''github.com'' ''/Homebrew/brew'')
      else if s = ''https://github.com/torvalds/linux''
        then Some (httpsUrl ''github.com'' ''/torvalds/linux'')
      else if s = ''http://user:pw@github.com:8080/torvalds/linux?tab=readme#top''
        then Some \<lparr>protocol = ''http:'', username = ''user'', password = ''pw'',
                   hostname = ''github.com'', port = ''8080'', pathname = ''/torvalds/linux'',
                   search = ''?tab=readme'', hash = ''#top''\<rparr>
      else if s = ''https://example.org/x'' then Some (httpsUrl ''example.org'' ''/x'')
      else if s = ''https://gw.example/'' then Some (httpsUrl ''gw.example'' ''/'')
      else if s = ''https://gw.example//'' then Some (httpsUrl ''gw.example'' ''//'')
      else None)"

section \<open>Properties\<close>

subsection \<open>Strings and loops\<close>

lemma includesStr_iff: "includesStr s p \<longleftrightarrow> (\<exists>a b. s = a @ p @ b)"
proof (induction s)
  case Nil
  show ?case by auto
next
  case (Cons c cs)
  show ?case
  proof
    assume "includesStr (c # cs) p"
    then consider "prefix p (c # cs)" | "includesStr cs p" by (auto split: if_splits)
    then show "\<exists>a b. c # cs = a @ p @ b"
    proof cases
      case 1
      then obtain b where "c # cs = p @ b" by (auto simp: prefix_def)
      then have "c # cs = [] @ p @ b" by simp
      then show ?thesis by blast
    next
      case 2
      with Cons.IH obtain a b where "cs = a @ p @ b" by blast
      then have "c # cs = (c # a) @ p @ b" by simp
      then show ?thesis by blast
    qed
  next
    assume "\<exists>a b. c # cs = a @ p @ b"
    then obtain a b where ab: "c # cs = a @ p @ b" by blast
    show "includesStr (c # cs) p"
    proof (cases a)
      case Nil
      with ab have "prefix p (c # cs)" by (simp add: prefix_def)
      then show ?thesis by simp
    next
      case (Cons a0 a')
      with ab have "cs = a' @ p @ b" by simp
      with Cons.IH have "includesStr cs p" by blast
      then show ?thesis by simp
    qed
  qed
qed

lemma includesStr_single: "includesStr s [c] \<longleftrightarrow> c \<in> set s"
  by (induction s) auto

lemma exactScan_Cons:
  "exactScan parse h (e # es) =
     (if exactHit parse h e then Some (entryPlatform e) else exactScan parse h es)"
  by (cases e)
     (auto simp: exactHit_def entryPlatform_def mkPlatform_def getPlatformDisplayName_def
           split: option.splits)

lemma subdomainScan_Cons:
  "subdomainScan parse h (e # es) =
     (if subdomainHit parse h e then Some (entryPlatform e) else subdomainScan parse h es)"
  by (cases e)
     (auto simp: subdomainHit_def entryPlatform_def mkPlatform_def getPlatformDisplayName_def
                 endsWith_def split: option.splits)

lemma baseDomainScan_Cons:
  "baseDomainScan parse h (e # es) =
     (if baseDomainHit parse h e then Some (entryPlatform e) else baseDomainScan parse h es)"
  by (cases e)
     (auto simp: baseDomainHit_def entryPlatform_def mkPlatform_def getPlatformDisplayName_def
                 includesStr_single Let_def split: option.splits)

lemma exactScan_find:
  "exactScan parse h reg = map_option entryPlatform (find (exactHit parse h) reg)"
  by (induction reg) (simp_all add: exactScan_Cons del: exactScan.simps(2))

lemma subdomainScan_find:
  "subdomainScan parse h reg = map_option entryPlatform (find (subdomainHit parse h) reg)"
  by (induction reg) (simp_all add: subdomainScan_Cons del: subdomainScan.simps(2))

lemma baseDomainScan_find:
  "baseDomainScan parse h reg = map_option entryPlatform (find (baseDomainHit parse h) reg)"
  by (induction reg) (simp_all add: baseDomainScan_Cons del: baseDomainScan.simps(2))

lemma find_first: "\<forall>x\<in>set xs. \<not> P x \<Longrightarrow> P e \<Longrightarrow> find P (xs @ e # ys) = Some e"
  by (induction xs) auto

lemma find_drop_miss: "\<not> P e \<Longrightarrow> find P (xs @ e # ys) = find P (xs @ ys)"
  by (induction xs) auto

lemma startsWith_toLowerCase_iff:
  "startsWith (toLowerCase s) p \<longleftrightarrow> (\<exists>pre rest. s = pre @ rest \<and> toLowerCase pre = p)"
proof
  assume "startsWith (toLowerCase s) p"
  then obtain r where r: "map toLowerChar s = p @ r"
    by (auto simp: startsWith_def toLowerCase_def prefix_def)
  have "s = take (length p) s @ drop (length p) s" by simp
  moreover have "toLowerCase (take (length p) s) = p"
    using r by (simp add: toLowerCase_def take_map [symmetric])
  ultimately show "\<exists>pre rest. s = pre @ rest \<and> toLowerCase pre = p" by blast
next
  assume "\<exists>pre rest. s = pre @ rest \<and> toLowerCase pre = p"
  then show "startsWith (toLowerCase s) p"
    by (auto simp: startsWith_def toLowerCase_def)
qed

lemma no_exactHit_find:
  assumes "\<And>k b v. (k, b) \<in> set reg \<Longrightarrow> parse b = Some v \<Longrightarrow> hostname v \<noteq> h"
  shows "find (exactHit parse h) reg = None"
proof -
  have "\<not> exactHit parse h e" if "e \<in> set reg" for e
    using assms [of "fst e" "snd e"] that by (auto simp: exactHit_def split: option.splits)
  then show ?thesis by (auto simp: find_None_iff)
qed

lemma unparseable_no_hit:
  "parse b = None \<Longrightarrow> \<not> exactHit parse h (k, b)"
  "parse b = None \<Longrightarrow> \<not> subdomainHit parse h (k, b)"
  "parse b = None \<Longrightarrow> \<not> baseDomainHit parse h (k, b)"
  by (simp_all add: exactHit_def subdomainHit_def baseDomainHit_def)

lemma find_Some_hit: "find P xs = Some e \<Longrightarrow> P e"
  by (induction xs) (auto split: if_splits)

subsection \<open>Platform detection\<close>

text \<open>
  Claim C1. For a URL that parses, with hostname \<open>h\<close>, \<^verbatim>\<open>detectPlatform\<close> tries its four
  tiers in order and the first tier that matches decides:
  \<^item> the first registry entry whose base URL has hostname \<open>h\<close> is returned, whatever
    subdomain or base-domain matches the registry holds before or after it;
  \<^item> with no such entry and \<open>h\<close> one of \<^verbatim>\<open>ghcr.io\<close> and \<^verbatim>\<open>github.com\<close>, one of the four
    hard-coded platforms is returned, whatever subdomain or base-domain matches exist;
  \<^item> otherwise the first entry of which \<open>h\<close> is a subdomain is returned;
  \<^item> otherwise the first entry with the same last two labels as \<open>h\<close>;
  \<^item> otherwise \<^verbatim>\<open>null\<close>.
  "First" is in the order of \<^verbatim>\<open>Object.entries\<close>. In particular, whenever some entry has
  a base URL with exactly the hostname \<open>h\<close>, an entry with exactly that hostname is returned
  (the first of them, should there be several).
\<close>

theorem detectPlatform_tier_priority:
  assumes "parse u = Some urlObj" and "hostname urlObj = h"
  shows
    "(\<forall>xs e ys. reg = xs @ e # ys \<and> exactHit parse h e \<and> (\<forall>x\<in>set xs. \<not> exactHit parse h x)
        \<longrightarrow> detectPlatform parse reg u = Some (entryPlatform e))
   \<and> ((\<forall>x\<in>set reg. \<not> exactHit parse h x) \<and> (h = ''ghcr.io'' \<or> h = ''github.com'')
        \<longrightarrow> (\<exists>p. detectPlatform parse reg u = Some p
                 \<and> key p \<in> {''homebrew-bottles'', ''cr-ghcr'', ''homebrew'', ''gh''}))
   \<and> (\<forall>xs e ys. (\<forall>x\<in>set reg. \<not> exactHit parse h x) \<and> h \<noteq> ''ghcr.io'' \<and> h \<noteq> ''github.com''
          \<and> reg = xs @ e # ys \<and> subdomainHit parse h e \<and> (\<forall>x\<in>set xs. \<not> subdomainHit parse h x)
        \<longrightarrow> detectPlatform parse reg u = Some (entryPlatform e))
   \<and> (\<forall>xs e ys. (\<forall>x\<in>set reg. \<not> exactHit parse h x) \<and> h \<noteq> ''ghcr.io'' \<and> h \<noteq> ''github.com''
          \<and> (\<forall>x\<in>set reg. \<not> subdomainHit parse h x)
          \<and> reg = xs @ e # ys \<and> baseDomainHit parse h e \<and> (\<forall>x\<in>set xs. \<not> baseDomainHit parse h x)
        \<longrightarrow> detectPlatform parse reg u = Some (entryPlatform e))
   \<and> ((\<forall>x\<in>set reg. \<not> exactHit parse h x) \<and> h \<noteq> ''ghcr.io'' \<and> h \<noteq> ''github.com''
          \<and> (\<forall>x\<in>set reg. \<not> subdomainHit parse h x) \<and> (\<forall>x\<in>set reg. \<not> baseDomainHit parse h x)
        \<longrightarrow> detectPlatform parse reg u = None)
   \<and> ((\<exists>e\<in>set reg. exactHit parse h e)
        \<longrightarrow> (\<exists>e\<in>set reg. exactHit parse h e
                 \<and> detectPlatform parse reg u = Some (entryPlatform e)))"
proof -
  have none: "find P reg = None" if "\<forall>x\<in>set reg. \<not> P x" for P :: "string \<times> string \<Rightarrow> bool"
    using that by (simp add: find_None_iff)
  have D: "detectPlatform parse reg u =
        (case exactScan parse h reg of
           Some p \<Rightarrow> Some p
         | None \<Rightarrow>
             if h = ''ghcr.io'' then
               (if includesStr (pathname urlObj) ''/v2/homebrew/''
                then Some \<lparr>key = ''homebrew-bottles'', name = ''homebrew-bottles'',
                           baseUrl = ''https://ghcr.io''\<rparr>
                else Some \<lparr>key = ''cr-ghcr'', name = ''cr-ghcr'', baseUrl = ''https://ghcr.io''\<rparr>)
             else if h = ''github.com'' then
               (if startsWith (toLowerCase (pathname urlObj)) ''/homebrew/''
                then Some \<lparr>key = ''homebrew'', name = ''homebrew'',
                           baseUrl = ''https://github.com/Homebrew''\<rparr>
                else Some \<lparr>key = ''gh'', name = ''gh'', baseUrl = ''https://github.com''\<rparr>)
             else
               (case subdomainScan parse h reg of
                  Some p \<Rightarrow> Some p
                | None \<Rightarrow> baseDomainScan parse h reg))"
    using assms
    by (simp add: detectPlatform_def getPlatformDisplayName_def cong: option.case_cong if_cong)
  have 1: "detectPlatform parse reg u = Some (entryPlatform e)"
    if "reg = xs @ e # ys" "exactHit parse h e" "\<forall>x\<in>set xs. \<not> exactHit parse h x" for xs e ys
  proof -
    have "exactScan parse h reg = Some (entryPlatform e)"
      using that by (simp add: exactScan_find find_first)
    then show ?thesis by (simp add: D)
  qed
  have 2: "\<exists>p. detectPlatform parse reg u = Some p
                 \<and> key p \<in> {''homebrew-bottles'', ''cr-ghcr'', ''homebrew'', ''gh''}"
    if "\<forall>x\<in>set reg. \<not> exactHit parse h x" "h = ''ghcr.io'' \<or> h = ''github.com''"
    using that none [OF that(1)] by (auto simp: D exactScan_find)
  have 3: "detectPlatform parse reg u = Some (entryPlatform e)"
    if "\<forall>x\<in>set reg. \<not> exactHit parse h x" "h \<noteq> ''ghcr.io''" "h \<noteq> ''github.com''"
       "reg = xs @ e # ys" "subdomainHit parse h e" "\<forall>x\<in>set xs. \<not> subdomainHit parse h x"
    for xs e ys
  proof -
    have "exactScan parse h reg = None" using none [OF that(1)] by (simp add: exactScan_find)
    moreover have "subdomainScan parse h reg = Some (entryPlatform e)"
      using that(4-6) by (simp add: subdomainScan_find find_first)
    ultimately show ?thesis using that(2,3) by (simp add: D)
  qed
  have 4: "detectPlatform parse reg u = Some (entryPlatform e)"
    if "\<forall>x\<in>set reg. \<not> exactHit parse h x" "h \<noteq> ''ghcr.io''" "h \<noteq> ''github.com''"
       "\<forall>x\<in>set reg. \<not> subdomainHit parse h x"
       "reg = xs @ e # ys" "baseDomainHit parse h e" "\<forall>x\<in>set xs. \<not> baseDomainHit parse h x"
    for xs e ys
  proof -
    have "exactScan parse h reg = None" using none [OF that(1)] by (simp add: exactScan_find)
    moreover have "subdomainScan parse h reg = None"
      using none [OF that(4)] by (simp add: subdomainScan_find)
    moreover have "baseDomainScan parse h reg = Some (entryPlatform e)"
      using that(5-7) by (simp add: baseDomainScan_find find_first)
    ultimately show ?thesis using that(2,3) by (simp add: D)
  qed
  have 5: "detectPlatform parse reg u = None"
    if "\<forall>x\<in>set reg. \<not> exactHit parse h x" "h \<noteq> ''ghcr.io''" "h \<noteq> ''github.com''"
       "\<forall>x\<in>set reg. \<not> subdomainHit parse h x" "\<forall>x\<in>set reg. \<not> baseDomainHit parse h x"
  proof -
    have "exactScan parse h reg = None" using none [OF that(1)] by (simp add: exactScan_find)
    moreover have "subdomainScan parse h reg = None"
      using none [OF that(4)] by (simp add: subdomainScan_find)
    moreover have "baseDomainScan parse h reg = None"
      using none [OF that(5)] by (simp add: baseDomainScan_find)
    ultimately show ?thesis using that(2,3) by (simp add: D)
  qed
  have 6: "\<exists>e\<in>set reg. exactHit parse h e
                 \<and> detectPlatform parse reg u = Some (entryPlatform e)"
    if "\<exists>e\<in>set reg. exactHit parse h e"
  proof -
    from that have "find (exactHit parse h) reg \<noteq> None"
      unfolding find_None_iff by blast
    then obtain e where e: "find (exactHit parse h) reg = Some e" by blast
    then have "exactHit parse h e" by (rule find_Some_hit)
    moreover have "e \<in> set reg" using e by (auto simp: find_Some_iff)
    moreover have "detectPlatform parse reg u = Some (entryPlatform e)"
      using e by (simp add: D exactScan_find)
    ultimately show ?thesis by blast
  qed
  show ?thesis
    apply (intro conjI allI impI)
    subgoal for xs e ys using 1 [of xs e ys] by blast
    subgoal using 2 by blast
    subgoal for xs e ys using 3 [of xs e ys] by blast
    subgoal for xs e ys using 4 [of xs e ys] by blast
    subgoal using 5 by blast
    subgoal using 6 by blast
    done
qed

text \<open>
  At \<^verbatim>\<open>https://registry.npmjs.org/react\<close> the entry for \<^verbatim>\<open>npmjs.org\<close> comes first and is both a
  subdomain match and a base-domain match; the later entry with the exact hostname is
  returned.
\<close>

theorem detectPlatform_tier_priority_witness:
  "subdomainHit exampleURL ''registry.npmjs.org'' (''npm-sub'', ''https://npmjs.org'')
   \<and> baseDomainHit exampleURL ''registry.npmjs.org'' (''npm-sub'', ''https://npmjs.org'')
   \<and> detectPlatform exampleURL
        [(''npm-sub'', ''https://npmjs.org''), (''npm'', ''https://registry.npmjs.org'')]
        ''https://registry.npmjs.org/react''
      = Some \<lparr>key = ''npm'', name = ''npm'', baseUrl = ''https://registry.npmjs.org''\<rparr>"
proof -
  have p: "exampleURL ''https://registry.npmjs.org/react''
             = Some (httpsUrl ''registry.npmjs.org'' ''/react'')"
    by code_simp
  have h: "hostname (httpsUrl ''registry.npmjs.org'' ''/react'') = ''registry.npmjs.org''"
    by (simp add: httpsUrl_def)
  have s: "subdomainHit exampleURL ''registry.npmjs.org'' (''npm-sub'', ''https://npmjs.org'')"
    by code_simp
  have b: "baseDomainHit exampleURL ''registry.npmjs.org'' (''npm-sub'', ''https://npmjs.org'')"
    by code_simp
  have e: "exactHit exampleURL ''registry.npmjs.org'' (''npm'', ''https://registry.npmjs.org'')"
    by code_simp
  have n: "\<not> exactHit exampleURL ''registry.npmjs.org'' (''npm-sub'', ''https://npmjs.org'')"
    by code_simp
  have "detectPlatform exampleURL
          ([(''npm-sub'', ''https://npmjs.org'')] @ (''npm'', ''https://registry.npmjs.org'') # [])
          ''https://registry.npmjs.org/react''
        = Some (entryPlatform (''npm'', ''https://registry.npmjs.org''))"
    using detectPlatform_tier_priority
            [where parse = exampleURL and u = "''https://registry.npmjs.org/react''"
               and reg = "[(''npm-sub'', ''https://npmjs.org'')]
                            @ (''npm'', ''https://registry.npmjs.org'') # []",
             OF p h, THEN conjunct1, THEN spec, THEN spec, THEN spec,
             of "[(''npm-sub'', ''https://npmjs.org'')]"
                "(''npm'', ''https://registry.npmjs.org'')" "[]"]
          e n
    by simp
  then show ?thesis using s b by (simp add: entryPlatform_def)
qed

text \<open>
  Claim C3. For a URL that parses with hostname \<^verbatim>\<open>ghcr.io\<close>, when no registry entry has a
  base URL with that hostname, \<^verbatim>\<open>detectPlatform\<close> returns \<^verbatim>\<open>homebrew-bottles\<close> (base
  \<^verbatim>\<open>https://ghcr.io\<close>) if \<^verbatim>\<open>/v2/homebrew/\<close> occurs in the pathname, and \<^verbatim>\<open>cr-ghcr\<close> (base
  \<^verbatim>\<open>https://ghcr.io\<close>) otherwise.
\<close>

theorem detectPlatform_ghcr:
  assumes "parse u = Some urlObj"
    and "hostname urlObj = ''ghcr.io''"
    and "\<And>k b v. (k, b) \<in> set reg \<Longrightarrow> parse b = Some v \<Longrightarrow> hostname v \<noteq> ''ghcr.io''"
  shows "detectPlatform parse reg u =
           Some (if \<exists>a b. pathname urlObj = a @ ''/v2/homebrew/'' @ b
                 then \<lparr>key = ''homebrew-bottles'', name = ''homebrew-bottles'',
                        baseUrl = ''https://ghcr.io''\<rparr>
                 else \<lparr>key = ''cr-ghcr'', name = ''cr-ghcr'', baseUrl = ''https://ghcr.io''\<rparr>)"
proof -
  have "exactScan parse ''ghcr.io'' reg = None"
    using no_exactHit_find [of reg parse "''ghcr.io''"] assms(3) by (simp add: exactScan_find)
  then show ?thesis
    using assms(1,2)
    by (simp add: detectPlatform_def includesStr_iff getPlatformDisplayName_def)
qed

theorem detectPlatform_ghcr_witness:
  "detectPlatform exampleURL [(''npm'', ''https://registry.npmjs.org'')]
     ''https://ghcr.io/v2/homebrew/core/wget/manifests/1.24''
     = Some \<lparr>key = ''homebrew-bottles'', name = ''homebrew-bottles'', baseUrl = ''https://ghcr.io''\<rparr>
   \<and> detectPlatform exampleURL [(''npm'', ''https://registry.npmjs.org'')]
     ''https://ghcr.io/v2/owner/image/tags/list''
     = Some \<lparr>key = ''cr-ghcr'', name = ''cr-ghcr'', baseUrl = ''https://ghcr.io''\<rparr>"
proof -
  have p1: "exampleURL ''https://ghcr.io/v2/homebrew/core/wget/manifests/1.24''
              = Some (httpsUrl ''ghcr.io'' ''/v2/homebrew/core/wget/manifests/1.24'')"
    by code_simp
  have p2: "exampleURL ''https://ghcr.io/v2/owner/image/tags/list''
              = Some (httpsUrl ''ghcr.io'' ''/v2/owner/image/tags/list'')"
    by code_simp
  have h: "hostname (httpsUrl ''ghcr.io'' q) = ''ghcr.io''" for q
    by (simp add: httpsUrl_def)
  have r: "exampleURL ''https://registry.npmjs.org'' = Some (httpsUrl ''registry.npmjs.org'' ''/'')"
    by code_simp
  have n: "hostname v \<noteq> ''ghcr.io''"
    if "(k, b) \<in> set [(''npm'', ''https://registry.npmjs.org'')]" "exampleURL b = Some v" for k b v
    using that r by (auto simp: httpsUrl_def)
  have i1: "\<exists>a b. ''/v2/homebrew/core/wget/manifests/1.24'' = a @ ''/v2/homebrew/'' @ b"
  proof -
    have "includesStr ''/v2/homebrew/core/wget/manifests/1.24'' ''/v2/homebrew/''" by code_simp
    then show ?thesis using includesStr_iff by blast
  qed
  have i2: "\<not> (\<exists>a b. ''/v2/owner/image/tags/list'' = a @ ''/v2/homebrew/'' @ b)"
  proof -
    have "\<not> includesStr ''/v2/owner/image/tags/list'' ''/v2/homebrew/''" by code_simp
    then show ?thesis using includesStr_iff by blast
  qed
  have q: "pathname (httpsUrl a b) = b" for a b by (simp add: httpsUrl_def)
  show ?thesis
    using detectPlatform_ghcr [where parse = exampleURL, OF p1 h n]
          detectPlatform_ghcr [where parse = exampleURL, OF p2 h n] i1 i2
    by (simp only: q if_True if_False simp_thms)
qed

text \<open>
  Claim C4. For a URL that parses with hostname \<^verbatim>\<open>github.com\<close>, when no registry entry has
  a base URL with that hostname, \<^verbatim>\<open>detectPlatform\<close> returns \<^verbatim>\<open>homebrew\<close> with base
  \<^verbatim>\<open>https://github.com/Homebrew\<close> if the pathname starts with \<^verbatim>\<open>/homebrew/\<close> in any mix of
  upper and lower case, and \<^verbatim>\<open>gh\<close> with base \<^verbatim>\<open>https://github.com\<close> otherwise.
\<close>

theorem detectPlatform_github:
  assumes "parse u = Some urlObj"
    and "hostname urlObj = ''github.com''"
    and "\<And>k b v. (k, b) \<in> set reg \<Longrightarrow> parse b = Some v \<Longrightarrow> hostname v \<noteq> ''github.com''"
  shows "detectPlatform parse reg u =
           Some (if \<exists>pre rest. pathname urlObj = pre @ rest \<and> toLowerCase pre = ''/homebrew/''
                 then \<lparr>key = ''homebrew'', name = ''homebrew'',
                        baseUrl = ''https://github.com/Homebrew''\<rparr>
                 else \<lparr>key = ''gh'', name = ''gh'', baseUrl = ''https://github.com''\<rparr>)"
proof -
  have "exactScan parse ''github.com'' reg = None"
    using no_exactHit_find [of reg parse "''github.com''"] assms(3) by (simp add: exactScan_find)
  then show ?thesis
    using assms(1,2)
    by (simp add: detectPlatform_def startsWith_toLowerCase_iff getPlatformDisplayName_def)
qed

theorem detectPlatform_github_witness:
  "detectPlatform exampleURL [(''npm'', ''https://registry.npmjs.org'')]
     ''https://github.com/Homebrew/brew''
     = Some \<lparr>key = ''homebrew'', name = ''homebrew'', baseUrl = ''https://github.com/Homebrew''\<rparr>
   \<and> detectPlatform exampleURL [(''npm'', ''https://registry.npmjs.org'')]
     ''https://github.com/torvalds/linux''
     = Some \<lparr>key = ''gh'', name = ''gh'', baseUrl = ''https://github.com''\<rparr>"
proof -
  have p1: "exampleURL ''https://github.com/Homebrew/brew''
              = Some (httpsUrl ''github.com'' ''/Homebrew/brew'')"
    by code_simp
  have p2: "exampleURL ''https://github.com/torvalds/linux''
              = Some (httpsUrl ''github.com'' ''/torvalds/linux'')"
    by code_simp
  have h: "hostname (httpsUrl ''github.com'' q) = ''github.com''" for q
    by (simp add: httpsUrl_def)
  have r: "exampleURL ''https://registry.npmjs.org'' = Some (httpsUrl ''registry.npmjs.org'' ''/'')"
    by code_simp
  have n: "hostname v \<noteq> ''github.com''"
    if "(k, b) \<in> set [(''npm'', ''https://registry.npmjs.org'')]" "exampleURL b = Some v" for k b v
    using that r by (auto simp: httpsUrl_def)
  have i1: "\<exists>pre rest. ''/Homebrew/brew'' = pre @ rest \<and> toLowerCase pre = ''/homebrew/''"
  proof -
    have "startsWith (toLowerCase ''/Homebrew/brew'') ''/homebrew/''" by code_simp
    then show ?thesis using startsWith_toLowerCase_iff by blast
  qed
  have i2: "\<not> (\<exists>pre rest. ''/torvalds/linux'' = pre @ rest \<and> toLowerCase pre = ''/homebrew/'')"
  proof -
    have "\<not> startsWith (toLowerCase ''/torvalds/linux'') ''/homebrew/''" by code_simp
    then show ?thesis using startsWith_toLowerCase_iff by blast
  qed
  have q: "pathname (httpsUrl a b) = b" for a b by (simp add: httpsUrl_def)
  show ?thesis
    using detectPlatform_github [where parse = exampleURL, OF p1 h n]
          detectPlatform_github [where parse = exampleURL, OF p2 h n] i1 i2
    by (simp only: q if_True if_False simp_thms)
qed

text \<open>
  Claim C9. A registry entry whose base URL does not parse is skipped by the three loops:
  \<^verbatim>\<open>detectPlatform\<close> returns what it returns for the registry without that entry, the
  entries before and after it being visited in the same order, and none of the loops
  returns the entry.
\<close>

theorem detectPlatform_skips_unparseable:
  assumes "parse b = None"
  shows "detectPlatform parse (xs @ (k, b) # ys) u = detectPlatform parse (xs @ ys) u
       \<and> exactScan parse h reg \<noteq> Some (mkPlatform k b)
       \<and> subdomainScan parse h reg \<noteq> Some (mkPlatform k b)
       \<and> baseDomainScan parse h reg \<noteq> Some (mkPlatform k b)"
proof -
  have e: "exactScan parse g (xs @ (k, b) # ys) = exactScan parse g (xs @ ys)" for g
    using assms by (simp add: exactScan_find find_drop_miss unparseable_no_hit)
  have s: "subdomainScan parse g (xs @ (k, b) # ys) = subdomainScan parse g (xs @ ys)" for g
    using assms by (simp add: subdomainScan_find find_drop_miss unparseable_no_hit)
  have d: "baseDomainScan parse g (xs @ (k, b) # ys) = baseDomainScan parse g (xs @ ys)" for g
    using assms by (simp add: baseDomainScan_find find_drop_miss unparseable_no_hit)
  have 1: "detectPlatform parse (xs @ (k, b) # ys) u = detectPlatform parse (xs @ ys) u"
    unfolding detectPlatform_def e s d ..
  have m: "mkPlatform k b = entryPlatform (k, b)"
    by (simp add: mkPlatform_def entryPlatform_def getPlatformDisplayName_def)
  have inj: "entryPlatform x = entryPlatform (k, b) \<Longrightarrow> x = (k, b)" for x
    by (cases x) (simp add: entryPlatform_def)
  have 2: "exactScan parse h reg \<noteq> Some (mkPlatform k b)"
  proof
    assume "exactScan parse h reg = Some (mkPlatform k b)"
    then obtain x where "find (exactHit parse h) reg = Some x" "entryPlatform x = entryPlatform (k, b)"
      by (auto simp: exactScan_find m)
    then have "exactHit parse h (k, b)" using inj find_Some_hit by metis
    then show False using assms by (simp add: unparseable_no_hit)
  qed
  have 3: "subdomainScan parse h reg \<noteq> Some (mkPlatform k b)"
  proof
    assume "subdomainScan parse h reg = Some (mkPlatform k b)"
    then obtain x where "find (subdomainHit parse h) reg = Some x" "entryPlatform x = entryPlatform (k, b)"
      by (auto simp: subdomainScan_find m)
    then have "subdomainHit parse h (k, b)" using inj find_Some_hit by metis
    then show False using assms by (simp add: unparseable_no_hit)
  qed
  have 4: "baseDomainScan parse h reg \<noteq> Some (mkPlatform k b)"
  proof
    assume "baseDomainScan parse h reg = Some (mkPlatform k b)"
    then obtain x where "find (baseDomainHit parse h) reg = Some x" "entryPlatform x = entryPlatform (k, b)"
      by (auto simp: baseDomainScan_find m)
    then have "baseDomainHit parse h (k, b)" using inj find_Some_hit by metis
    then show False using assms by (simp add: unparseable_no_hit)
  qed
  from 1 2 3 4 show ?thesis by simp
qed

theorem detectPlatform_skips_unparseable_witness:
  "exampleURL ''not a url'' = None
   \<and> detectPlatform exampleURL
        ([] @ (''broken'', ''not a url'') # [(''npm'', ''https://registry.npmjs.org'')])
        ''https://registry.npmjs.org/react''
     = detectPlatform exampleURL ([] @ [(''npm'', ''https://registry.npmjs.org'')])
        ''https://registry.npmjs.org/react''
   \<and> detectPlatform exampleURL [(''npm'', ''https://registry.npmjs.org'')]
        ''https://registry.npmjs.org/react''
     = Some \<lparr>key = ''npm'', name = ''npm'', baseUrl = ''https://registry.npmjs.org''\<rparr>"
proof -
  have n: "exampleURL ''not a url'' = None" by code_simp
  have v: "detectPlatform exampleURL [(''npm'', ''https://registry.npmjs.org'')]
        ''https://registry.npmjs.org/react''
     = Some \<lparr>key = ''npm'', name = ''npm'', baseUrl = ''https://registry.npmjs.org''\<rparr>"
    by code_simp
  show ?thesis
    using n v detectPlatform_skips_unparseable
            [where parse = exampleURL and xs = "[]" and k = "''broken''"
               and ys = "[(''npm'', ''https://registry.npmjs.org'')]"
               and u = "''https://registry.npmjs.org/react''", OF n, THEN conjunct1]
    by simp
qed

text \<open>
  Claim C10. Two URLs that parse to the same hostname and the same pathname get the same
  result from \<^verbatim>\<open>detectPlatform\<close>, whatever their scheme, port, query string, fragment and
  user information.
\<close>

theorem detectPlatform_reads_hostname_pathname:
  assumes "parse u1 = Some a" and "parse u2 = Some b"
    and "hostname a = hostname b" and "pathname a = pathname b"
  shows "detectPlatform parse reg u1 = detectPlatform parse reg u2"
  using assms by (simp add: detectPlatform_def cong: option.case_cong)

theorem detectPlatform_reads_hostname_pathname_witness:
  "exampleURL ''https://github.com/torvalds/linux'' \<noteq>
     exampleURL ''http://user:pw@github.com:8080/torvalds/linux?tab=readme#top''
   \<and> detectPlatform exampleURL [(''npm'', ''https://registry.npmjs.org'')]
        ''https://github.com/torvalds/linux''
     = detectPlatform exampleURL [(''npm'', ''https://registry.npmjs.org'')]
        ''http://user:pw@github.com:8080/torvalds/linux?tab=readme#top''"
proof -
  have p1: "exampleURL ''https://github.com/torvalds/linux''
              = Some (httpsUrl ''github.com'' ''/torvalds/linux'')"
    by code_simp
  have p2: "exampleURL ''http://user:pw@github.com:8080/torvalds/linux?tab=readme#top''
              = Some \<lparr>protocol = ''http:'', username = ''user'', password = ''pw'',
                       hostname = ''github.com'', port = ''8080'', pathname = ''/torvalds/linux'',
                       search = ''?tab=readme'', hash = ''#top''\<rparr>"
    by code_simp
  have d: "exampleURL ''https://github.com/torvalds/linux'' \<noteq>
     exampleURL ''http://user:pw@github.com:8080/torvalds/linux?tab=readme#top''"
    unfolding p1 p2 by (simp add: httpsUrl_def)
  show ?thesis
    using d detectPlatform_reads_hostname_pathname [where parse = exampleURL, OF p1 p2] by (simp add: httpsUrl_def)
qed

subsection \<open>Splitting, joining and the regular expressions\<close>

lemma splitOn_not_Nil: "splitOn c s \<noteq> []"
  by (induction s) auto

lemma joinWith_Cons: "joinWith sep (a # as) = (if as = [] then a else a @ sep @ joinWith sep as)"
  by (cases as) auto

lemma joinWith_splitOn: "joinWith [c] (splitOn c s) = s"
proof (induction s)
  case Nil
  show ?case by simp
next
  case (Cons x xs)
  obtain a as where r: "splitOn c xs = a # as"
    using splitOn_not_Nil [of c xs] by (cases "splitOn c xs") auto
  with Cons.IH have j: "joinWith [c] (a # as) = xs" by simp
  show ?case
  proof (cases "x = c")
    case True
    then show ?thesis using r j by (simp add: joinWith_Cons)
  next
    case False
    then show ?thesis using r j by (simp add: joinWith_Cons split: if_splits)
  qed
qed

lemma hd_splitOn: "hd (splitOn c s) = takeWhile (\<lambda>x. x \<noteq> c) s"
  by (induction s) auto

lemma joinWith_tl_splitOn:
  "joinWith [c] (tl (splitOn c s)) = drop 1 (dropWhile (\<lambda>x. x \<noteq> c) s)"
  by (induction s) (auto simp: joinWith_splitOn)

lemma takeWhile_upto: "c \<notin> set a \<Longrightarrow> takeWhile (\<lambda>x. x \<noteq> c) (a @ c # b) = a"
  by (induction a) auto

lemma dropWhile_upto: "c \<notin> set a \<Longrightarrow> dropWhile (\<lambda>x. x \<noteq> c) (a @ c # b) = c # b"
  by (induction a) auto

lemma dropWhile_hd: "dropWhile P xs = y # ys \<Longrightarrow> \<not> P y"
  using hd_dropWhile [of P xs] by auto

text \<open>
  The blob pattern matches exactly the paths \<^verbatim>\<open>/owner/repo/blob/rest\<close> with \<open>owner\<close> and
  \<open>repo\<close> non-empty and free of slashes and \<open>rest\<close> non-empty and free of line terminators.
\<close>

lemma blobMatch_Some:
  assumes "ow \<noteq> []" "CHR ''/'' \<notin> set ow" "rp \<noteq> []" "CHR ''/'' \<notin> set rp"
    and "rest \<noteq> []" "\<not> list_ex lineTerminator rest"
  shows "blobMatch (''/'' @ ow @ ''/'' @ rp @ ''/blob/'' @ rest) = Some (ow, rp, rest)"
proof -
  have 1: "takeWhile (\<lambda>x. x \<noteq> CHR ''/'') (ow @ CHR ''/'' # rp @ ''/blob/'' @ rest) = ow"
    using assms(2) by (rule takeWhile_upto)
  have 2: "dropWhile (\<lambda>x. x \<noteq> CHR ''/'') (ow @ CHR ''/'' # rp @ ''/blob/'' @ rest)
             = CHR ''/'' # rp @ ''/blob/'' @ rest"
    using assms(2) by (rule dropWhile_upto)
  have 3: "takeWhile (\<lambda>x. x \<noteq> CHR ''/'') (rp @ CHR ''/'' # ''blob/'' @ rest) = rp"
    using assms(4) by (rule takeWhile_upto)
  have 4: "dropWhile (\<lambda>x. x \<noteq> CHR ''/'') (rp @ CHR ''/'' # ''blob/'' @ rest)
             = CHR ''/'' # ''blob/'' @ rest"
    using assms(4) by (rule dropWhile_upto)
  show ?thesis
    using assms(1,3,5,6) 1 2 3 4 by (simp add: blobMatch_def)
qed

lemma blobMatch_Nil: "blobMatch [] = None"
  by (simp add: blobMatch_def)

lemma blobMatch_no_slash: "c \<noteq> CHR ''/'' \<Longrightarrow> blobMatch (c # r0) = None"
  by (simp add: blobMatch_def)

lemma blobMatch_slash:
  "blobMatch (CHR ''/'' # r0) =
     (if takeWhile (\<lambda>x. x \<noteq> CHR ''/'') r0 = [] then None
      else
        (case dropWhile (\<lambda>x. x \<noteq> CHR ''/'') r0 of
           [] \<Rightarrow> None
         | s # r2 \<Rightarrow>
             if takeWhile (\<lambda>x. x \<noteq> CHR ''/'') r2 = [] then None
             else if \<not> prefix ''/blob/'' (dropWhile (\<lambda>x. x \<noteq> CHR ''/'') r2) then None
             else if drop 6 (dropWhile (\<lambda>x. x \<noteq> CHR ''/'') r2) = [] then None
             else if list_ex lineTerminator (drop 6 (dropWhile (\<lambda>x. x \<noteq> CHR ''/'') r2)) then None
             else Some (takeWhile (\<lambda>x. x \<noteq> CHR ''/'') r0, takeWhile (\<lambda>x. x \<noteq> CHR ''/'') r2,
                        drop 6 (dropWhile (\<lambda>x. x \<noteq> CHR ''/'') r2))))"
  by (simp add: blobMatch_def Let_def cong: list.case_cong if_cong)

lemma blobMatch_SomeD:
  assumes "blobMatch path = Some (ow, rp, rest)"
  shows "path = ''/'' @ ow @ ''/'' @ rp @ ''/blob/'' @ rest \<and> ow \<noteq> [] \<and> CHR ''/'' \<notin> set ow
         \<and> rp \<noteq> [] \<and> CHR ''/'' \<notin> set rp \<and> rest \<noteq> [] \<and> \<not> list_ex lineTerminator rest"
proof -
  let ?P = "\<lambda>x. x \<noteq> CHR ''/''"
  obtain c r0 where pc: "path = c # r0"
    using assms by (cases path) (simp_all add: blobMatch_Nil)
  have c: "c = CHR ''/''"
    using assms pc blobMatch_no_slash [of c r0] by (cases "c = CHR ''/''") simp_all
  note m = assms [unfolded pc c blobMatch_slash]
  have ow0: "takeWhile ?P r0 \<noteq> []"
    using m by (cases "takeWhile ?P r0 = []") simp_all
  obtain s r2 where r1: "dropWhile ?P r0 = s # r2"
    using m ow0 by (cases "dropWhile ?P r0") simp_all
  note m2 = m [unfolded r1 list.case]
  have rp0: "takeWhile ?P r2 \<noteq> []"
    using m2 ow0 by (cases "takeWhile ?P r2 = []") simp_all
  have pre: "prefix ''/blob/'' (dropWhile ?P r2)"
    using m2 ow0 rp0 by (cases "prefix ''/blob/'' (dropWhile ?P r2)") simp_all
  have ne: "drop 6 (dropWhile ?P r2) \<noteq> []"
    using m2 ow0 rp0 pre by (cases "drop 6 (dropWhile ?P r2) = []") simp_all
  have nl: "\<not> list_ex lineTerminator (drop 6 (dropWhile ?P r2))"
    using m2 ow0 rp0 pre ne
    by (cases "list_ex lineTerminator (drop 6 (dropWhile ?P r2))") simp_all
  have res: "ow = takeWhile ?P r0" "rp = takeWhile ?P r2" "rest = drop 6 (dropWhile ?P r2)"
    using m2 ow0 rp0 pre ne nl by simp_all
  have s: "s = CHR ''/''" using dropWhile_hd [OF r1] by simp
  from pre obtain t where t: "dropWhile ?P r2 = ''/blob/'' @ t" by (auto simp: prefix_def)
  with res(3) have rest: "t = rest" by simp
  have "r2 = rp @ ''/blob/'' @ rest"
    using takeWhile_dropWhile_id [of ?P r2] t rest res(2) by simp
  moreover have "r0 = ow @ s # r2"
    using takeWhile_dropWhile_id [of ?P r0] r1 res(1) by simp
  moreover have "CHR ''/'' \<notin> set ow" unfolding res(1) by (auto dest: set_takeWhileD)
  moreover have "CHR ''/'' \<notin> set rp" unfolding res(2) by (auto dest: set_takeWhileD)
  ultimately show ?thesis using pc c s ow0 rp0 ne nl res by simp
qed

lemma leading_match_iff:
  "(\<exists>pre rest. s = pre @ rest \<and> map canonicalize pre = map canonicalize pat)
   \<longleftrightarrow> (length pat \<le> length s \<and> map canonicalize (take (length pat) s) = map canonicalize pat)"
proof
  assume "\<exists>pre rest. s = pre @ rest \<and> map canonicalize pre = map canonicalize pat"
  then obtain pre rest where s: "s = pre @ rest" and m: "map canonicalize pre = map canonicalize pat"
    by blast
  from m have "length pre = length pat" by (rule map_eq_imp_length_eq)
  with s m show "length pat \<le> length s \<and> map canonicalize (take (length pat) s) = map canonicalize pat"
    by simp
next
  assume a: "length pat \<le> length s \<and> map canonicalize (take (length pat) s) = map canonicalize pat"
  have "s = take (length pat) s @ drop (length pat) s" by simp
  with a show "\<exists>pre rest. s = pre @ rest \<and> map canonicalize pre = map canonicalize pat" by blast
qed

lemma removeLeading_hit:
  assumes "map canonicalize pre = map canonicalize pat"
  shows "removeLeadingIgnoreCase pat (pre @ rest) = rest"
proof -
  from assms have "length pre = length pat" by (rule map_eq_imp_length_eq)
  with assms show ?thesis by (simp add: removeLeadingIgnoreCase_def)
qed

lemma removeLeading_miss:
  assumes "\<not> (\<exists>pre rest. s = pre @ rest \<and> map canonicalize pre = map canonicalize pat)"
  shows "removeLeadingIgnoreCase pat s = s"
proof -
  have "\<not> (length pat \<le> length s
            \<and> map canonicalize (take (length pat) s) = map canonicalize pat)"
    using assms leading_match_iff [of s pat] by blast
  then show ?thesis by (simp only: removeLeadingIgnoreCase_def if_False)
qed

subsection \<open>Path adjustment\<close>

lemma normalise_cases:
  "(if \<not> startsWith p ''/'' \<and> p \<noteq> [] then ''/'' @ p else p)
     = (if p = [] \<or> hd p = CHR ''/'' then p else CHR ''/'' # p)"
  by (cases p) (auto simp: startsWith_def)

lemma normalised_shape:
  "(if \<not> startsWith p ''/'' \<and> p \<noteq> [] then ''/'' @ p else p) = []
   \<or> startsWith (if \<not> startsWith p ''/'' \<and> p \<noteq> [] then ''/'' @ p else p) ''/''"
  by (simp add: startsWith_def)

lemma adjust_gh:
  "adjustPathForPlatform path ''gh'' =
     (case blobMatch path of
        None \<Rightarrow> (if path = [] \<or> hd path = CHR ''/'' then path else CHR ''/'' # path)
      | Some (ow, rp, rest) \<Rightarrow>
          ''/'' @ ow @ ''/'' @ rp @ ''/raw/refs/heads/'' @ takeWhile (\<lambda>x. x \<noteq> CHR ''/'') rest
            @ ''/'' @ drop 1 (dropWhile (\<lambda>x. x \<noteq> CHR ''/'') rest))"
proof (cases "blobMatch path")
  case None
  then show ?thesis
    by (simp add: adjustPathForPlatform_def normalise_cases)
next
  case (Some m)
  obtain ow rp rest where m: "m = (ow, rp, rest)" by (cases m) auto
  let ?parts = "splitOn (CHR ''/'') rest"
  obtain a as where parts: "?parts = a # as"
    using splitOn_not_Nil [of "CHR ''/''" rest] by (cases ?parts) auto
  have a: "a = takeWhile (\<lambda>x. x \<noteq> CHR ''/'') rest"
    using hd_splitOn [of "CHR ''/''" rest] parts by simp
  have as: "joinWith ''/'' as = drop 1 (dropWhile (\<lambda>x. x \<noteq> CHR ''/'') rest)"
    using joinWith_tl_splitOn [of "CHR ''/''" rest] parts by simp
  have e: "as = [] \<Longrightarrow> drop 1 (dropWhile (\<lambda>x. x \<noteq> CHR ''/'') rest) = []"
    using as by simp
  show ?thesis
    using Some m parts a as e
    by (cases as) (simp_all add: adjustPathForPlatform_def startsWith_def)
qed

lemma adjust_homebrew:
  "adjustPathForPlatform path ''homebrew'' =
     (if removeLeadingIgnoreCase ''/homebrew'' path = []
         \<or> removeLeadingIgnoreCase ''/homebrew'' path = ''/'' then []
      else if hd (removeLeadingIgnoreCase ''/homebrew'' path) = CHR ''/''
        then removeLeadingIgnoreCase ''/homebrew'' path
      else CHR ''/'' # removeLeadingIgnoreCase ''/homebrew'' path)"
  by (simp add: adjustPathForPlatform_def Let_def normalise_cases)

lemma adjust_homebrew_api:
  "adjustPathForPlatform path ''homebrew-api'' =
     (if removeLeadingIgnoreCase ''/api'' path = []
         \<or> removeLeadingIgnoreCase ''/api'' path = ''/'' then []
      else if hd (removeLeadingIgnoreCase ''/api'' path) = CHR ''/''
        then removeLeadingIgnoreCase ''/api'' path
      else CHR ''/'' # removeLeadingIgnoreCase ''/api'' path)"
  by (simp add: adjustPathForPlatform_def Let_def normalise_cases)

text \<open>
  Claim C6. For every platform key and every path, the path \<^verbatim>\<open>adjustPathForPlatform\<close>
  returns is empty or begins with a slash; this covers the base path of every URL object,
  its pathname followed by its query string.
\<close>

theorem adjustPathForPlatform_empty_or_slash:
  "adjustPathForPlatform path platformKey = []
   \<or> startsWith (adjustPathForPlatform path platformKey) ''/''"
  unfolding adjustPathForPlatform_def Let_def by (rule normalised_shape)

theorem adjustPathForPlatform_empty_or_slash_witness:
  "adjustPathForPlatform ''?x=1'' ''gh'' = []
   \<or> startsWith (adjustPathForPlatform ''?x=1'' ''gh'') ''/''"
  by (rule adjustPathForPlatform_empty_or_slash)

text \<open>
  Claim C2, as stated, fails: a path of \<^verbatim>\<open>gh\<close> that does not match the blob pattern is not
  always returned unchanged. The base path \<^verbatim>\<open>?x=1\<close> (an empty pathname followed by a query
  string, as a URL with a host and no path has it when its scheme is none of the special
  ones) does not match and comes back with a slash in front, through the last statement of
  \<^verbatim>\<open>adjustPathForPlatform\<close>.
\<close>

theorem adjustPathForPlatform_gh_unchanged_counterexample:
  "blobMatch ''?x=1'' = None \<and> adjustPathForPlatform ''?x=1'' ''gh'' = ''/?x=1''"
  by code_simp

text \<open>
  Claim C2, amended. For the key \<^verbatim>\<open>gh\<close>:
  \<^item> a path \<^verbatim>\<open>/owner/repo/blob/rest\<close>, with \<open>owner\<close> and \<open>repo\<close> non-empty and free of
    slashes and \<open>rest\<close> non-empty and free of line terminators, becomes
    \<^verbatim>\<open>/owner/repo/raw/refs/heads/branch/filePath\<close>, where \<open>branch\<close> is \<open>rest\<close> up to its first
    slash and \<open>filePath\<close> is what follows that slash (empty when there is none, the slash
    after \<open>branch\<close> being kept);
  \<^item> every other path is returned unchanged when it is empty or begins with a slash, and
    with a slash put in front otherwise.
\<close>

theorem adjustPathForPlatform_gh:
  "(ow \<noteq> [] \<and> CHR ''/'' \<notin> set ow \<and> rp \<noteq> [] \<and> CHR ''/'' \<notin> set rp
      \<and> rest \<noteq> [] \<and> (\<forall>c\<in>set rest. \<not> lineTerminator c)
    \<longrightarrow> adjustPathForPlatform (''/'' @ ow @ ''/'' @ rp @ ''/blob/'' @ rest) ''gh''
          = ''/'' @ ow @ ''/'' @ rp @ ''/raw/refs/heads/''
              @ takeWhile (\<lambda>x. x \<noteq> CHR ''/'') rest @ ''/''
              @ drop 1 (dropWhile (\<lambda>x. x \<noteq> CHR ''/'') rest))
   \<and> (\<not> (\<exists>ow rp rest. path = ''/'' @ ow @ ''/'' @ rp @ ''/blob/'' @ rest
            \<and> ow \<noteq> [] \<and> CHR ''/'' \<notin> set ow \<and> rp \<noteq> [] \<and> CHR ''/'' \<notin> set rp
            \<and> rest \<noteq> [] \<and> (\<forall>c\<in>set rest. \<not> lineTerminator c))
    \<longrightarrow> adjustPathForPlatform path ''gh''
          = (if path = [] \<or> hd path = CHR ''/'' then path else CHR ''/'' # path))"
proof (intro conjI impI)
  assume a: "ow \<noteq> [] \<and> CHR ''/'' \<notin> set ow \<and> rp \<noteq> [] \<and> CHR ''/'' \<notin> set rp
      \<and> rest \<noteq> [] \<and> (\<forall>c\<in>set rest. \<not> lineTerminator c)"
  then have "blobMatch (''/'' @ ow @ ''/'' @ rp @ ''/blob/'' @ rest) = Some (ow, rp, rest)"
    using blobMatch_Some [of ow rp rest] by (simp add: list_ex_iff)
  then show "adjustPathForPlatform (''/'' @ ow @ ''/'' @ rp @ ''/blob/'' @ rest) ''gh''
          = ''/'' @ ow @ ''/'' @ rp @ ''/raw/refs/heads/''
              @ takeWhile (\<lambda>x. x \<noteq> CHR ''/'') rest @ ''/''
              @ drop 1 (dropWhile (\<lambda>x. x \<noteq> CHR ''/'') rest)"
    by (simp only: adjust_gh option.case prod.case)
next
  assume n: "\<not> (\<exists>ow rp rest. path = ''/'' @ ow @ ''/'' @ rp @ ''/blob/'' @ rest
            \<and> ow \<noteq> [] \<and> CHR ''/'' \<notin> set ow \<and> rp \<noteq> [] \<and> CHR ''/'' \<notin> set rp
            \<and> rest \<noteq> [] \<and> (\<forall>c\<in>set rest. \<not> lineTerminator c))"
  have "blobMatch path = None"
  proof (cases "blobMatch path")
    case None
    then show ?thesis .
  next
    case (Some m)
    obtain ow rp rest where "m = (ow, rp, rest)" by (cases m) auto
    with Some have "blobMatch path = Some (ow, rp, rest)" by simp
    from blobMatch_SomeD [OF this] n show ?thesis by (auto simp: list_ex_iff)
  qed
  then show "adjustPathForPlatform path ''gh''
          = (if path = [] \<or> hd path = CHR ''/'' then path else CHR ''/'' # path)"
    by (simp only: adjust_gh option.case)
qed

theorem adjustPathForPlatform_gh_witness:
  "adjustPathForPlatform ''/owner/repo/blob/main/path/to/file.txt'' ''gh''
     = ''/owner/repo/raw/refs/heads/main/path/to/file.txt''
   \<and> adjustPathForPlatform ''/owner/repo/blob/main'' ''gh'' = ''/owner/repo/raw/refs/heads/main/''
   \<and> adjustPathForPlatform ''/owner/repo/tree/main'' ''gh'' = ''/owner/repo/tree/main''
   \<and> adjustPathForPlatform ''?x=1'' ''gh'' = ''/?x=1''"
proof -
  have 1: "adjustPathForPlatform ''/owner/repo/blob/main/path/to/file.txt'' ''gh''
     = ''/owner/repo/raw/refs/heads/main/path/to/file.txt''"
    using adjustPathForPlatform_gh
            [where ow = "''owner''" and rp = "''repo''" and rest = "''main/path/to/file.txt''",
             THEN conjunct1]
    by (simp add: lineTerminator_def)
  have 2: "adjustPathForPlatform ''/owner/repo/blob/main'' ''gh''
     = ''/owner/repo/raw/refs/heads/main/''"
    using adjustPathForPlatform_gh
            [where ow = "''owner''" and rp = "''repo''" and rest = "''main''", THEN conjunct1]
    by (simp add: lineTerminator_def)
  have no: "\<not> (\<exists>ow rp rest. path = ''/'' @ ow @ ''/'' @ rp @ ''/blob/'' @ rest
            \<and> ow \<noteq> [] \<and> CHR ''/'' \<notin> set ow \<and> rp \<noteq> [] \<and> CHR ''/'' \<notin> set rp
            \<and> rest \<noteq> [] \<and> (\<forall>c\<in>set rest. \<not> lineTerminator c))"
    if "blobMatch path = None" for path
    using that blobMatch_Some by (fastforce simp: list_ex_iff)
  have b3: "blobMatch ''/owner/repo/tree/main'' = None" by code_simp
  have b4: "blobMatch ''?x=1'' = None" by code_simp
  have 3: "adjustPathForPlatform ''/owner/repo/tree/main'' ''gh'' = ''/owner/repo/tree/main''"
    using adjustPathForPlatform_gh [where path = "''/owner/repo/tree/main''", THEN conjunct2]
          no [OF b3]
    by simp
  have 4: "adjustPathForPlatform ''?x=1'' ''gh'' = ''/?x=1''"
    using adjustPathForPlatform_gh [where path = "''?x=1''", THEN conjunct2] no [OF b4]
    by simp
  from 1 2 3 4 show ?thesis by simp
qed

text \<open>
  Claim C5, as stated, fails: what is removed is the leading text \<^verbatim>\<open>/homebrew\<close> (or
  \<^verbatim>\<open>/api\<close>), not a leading segment. The paths \<^verbatim>\<open>/homebrewery/x\<close> and \<^verbatim>\<open>/apiary/x\<close> do not
  begin with the segment and are changed all the same.
\<close>

theorem adjustPathForPlatform_segment_counterexample:
  "adjustPathForPlatform ''/homebrewery/x'' ''homebrew'' = ''/ery/x''
   \<and> adjustPathForPlatform ''/apiary/x'' ''homebrew-api'' = ''/ary/x''"
  by code_simp

text \<open>
  Claim C5, amended. For the key \<^verbatim>\<open>homebrew\<close> the leading characters \<^verbatim>\<open>/homebrew\<close>, in any
  mix of upper and lower case, are removed from the start of the path, whether or not a
  segment ends after them; for the key \<^verbatim>\<open>homebrew-api\<close> the leading characters \<^verbatim>\<open>/api\<close>.
  In both cases, also when nothing was removed, a result that is empty or exactly \<^verbatim>\<open>/\<close>
  becomes the empty string; any other result is returned as it is when it begins with a
  slash and with a slash put in front otherwise.
\<close>

theorem adjustPathForPlatform_homebrew:
  "(map canonicalize pre = map canonicalize ''/homebrew''
    \<longrightarrow> adjustPathForPlatform (pre @ rest) ''homebrew''
          = (if rest = [] \<or> rest = ''/'' then []
             else if hd rest = CHR ''/'' then rest else CHR ''/'' # rest))
   \<and> (\<not> (\<exists>pre rest. path = pre @ rest \<and> map canonicalize pre = map canonicalize ''/homebrew'')
    \<longrightarrow> adjustPathForPlatform path ''homebrew''
          = (if path = [] \<or> path = ''/'' then []
             else if hd path = CHR ''/'' then path else CHR ''/'' # path))
   \<and> (map canonicalize pre' = map canonicalize ''/api''
    \<longrightarrow> adjustPathForPlatform (pre' @ rest') ''homebrew-api''
          = (if rest' = [] \<or> rest' = ''/'' then []
             else if hd rest' = CHR ''/'' then rest' else CHR ''/'' # rest'))
   \<and> (\<not> (\<exists>pre rest. path' = pre @ rest \<and> map canonicalize pre = map canonicalize ''/api'')
    \<longrightarrow> adjustPathForPlatform path' ''homebrew-api''
          = (if path' = [] \<or> path' = ''/'' then []
             else if hd path' = CHR ''/'' then path' else CHR ''/'' # path'))"
proof (intro conjI impI)
  assume "map canonicalize pre = map canonicalize ''/homebrew''"
  then have "removeLeadingIgnoreCase ''/homebrew'' (pre @ rest) = rest"
    by (rule removeLeading_hit)
  then show "adjustPathForPlatform (pre @ rest) ''homebrew''
          = (if rest = [] \<or> rest = ''/'' then []
             else if hd rest = CHR ''/'' then rest else CHR ''/'' # rest)"
    by (simp only: adjust_homebrew)
next
  assume "\<not> (\<exists>pre rest. path = pre @ rest \<and> map canonicalize pre = map canonicalize ''/homebrew'')"
  then have "removeLeadingIgnoreCase ''/homebrew'' path = path"
    by (rule removeLeading_miss)
  then show "adjustPathForPlatform path ''homebrew''
          = (if path = [] \<or> path = ''/'' then []
             else if hd path = CHR ''/'' then path else CHR ''/'' # path)"
    by (simp only: adjust_homebrew)
next
  assume "map canonicalize pre' = map canonicalize ''/api''"
  then have "removeLeadingIgnoreCase ''/api'' (pre' @ rest') = rest'"
    by (rule removeLeading_hit)
  then show "adjustPathForPlatform (pre' @ rest') ''homebrew-api''
          = (if rest' = [] \<or> rest' = ''/'' then []
             else if hd rest' = CHR ''/'' then rest' else CHR ''/'' # rest')"
    by (simp only: adjust_homebrew_api)
next
  assume "\<not> (\<exists>pre rest. path' = pre @ rest \<and> map canonicalize pre = map canonicalize ''/api'')"
  then have "removeLeadingIgnoreCase ''/api'' path' = path'"
    by (rule removeLeading_miss)
  then show "adjustPathForPlatform path' ''homebrew-api''
          = (if path' = [] \<or> path' = ''/'' then []
             else if hd path' = CHR ''/'' then path' else CHR ''/'' # path')"
    by (simp only: adjust_homebrew_api)
qed

theorem adjustPathForPlatform_homebrew_witness:
  "adjustPathForPlatform ''/Homebrew/core/formula/wget.rb'' ''homebrew'' = ''/core/formula/wget.rb''
   \<and> adjustPathForPlatform ''/HOMEBREW'' ''homebrew'' = []
   \<and> adjustPathForPlatform ''/opt/homebrew'' ''homebrew'' = ''/opt/homebrew''
   \<and> adjustPathForPlatform ''/api/formula/wget.json'' ''homebrew-api'' = ''/formula/wget.json''
   \<and> adjustPathForPlatform ''/formula/api'' ''homebrew-api'' = ''/formula/api''"
proof -
  have c1: "map canonicalize ''/Homebrew'' = map canonicalize ''/homebrew''" by code_simp
  have c2: "map canonicalize ''/HOMEBREW'' = map canonicalize ''/homebrew''" by code_simp
  have c3: "\<not> (\<exists>pre rest. ''/opt/homebrew'' = pre @ rest
                  \<and> map canonicalize pre = map canonicalize ''/homebrew'')"
    unfolding leading_match_iff by code_simp
  have c4: "map canonicalize ''/api'' = map canonicalize ''/api''" by simp
  have c5: "\<not> (\<exists>pre rest. ''/formula/api'' = pre @ rest
                  \<and> map canonicalize pre = map canonicalize ''/api'')"
    unfolding leading_match_iff by code_simp
  have 1: "adjustPathForPlatform (''/Homebrew'' @ ''/core/formula/wget.rb'') ''homebrew''
             = ''/core/formula/wget.rb''"
    using adjustPathForPlatform_homebrew
            [where pre = "''/Homebrew''" and rest = "''/core/formula/wget.rb''", THEN conjunct1] c1
    by simp
  have 2: "adjustPathForPlatform (''/HOMEBREW'' @ []) ''homebrew'' = []"
    using adjustPathForPlatform_homebrew
            [where pre = "''/HOMEBREW''" and rest = "[]", THEN conjunct1] c2
    by simp
  have 3: "adjustPathForPlatform ''/opt/homebrew'' ''homebrew'' = ''/opt/homebrew''"
    using adjustPathForPlatform_homebrew
            [where path = "''/opt/homebrew''", THEN conjunct2, THEN conjunct1] c3
    by simp
  have 4: "adjustPathForPlatform (''/api'' @ ''/formula/wget.json'') ''homebrew-api''
             = ''/formula/wget.json''"
    using adjustPathForPlatform_homebrew
            [where pre' = "''/api''" and rest' = "''/formula/wget.json''",
             THEN conjunct2, THEN conjunct2, THEN conjunct1] c4
    by simp
  have 5: "adjustPathForPlatform ''/formula/api'' ''homebrew-api'' = ''/formula/api''"
    using adjustPathForPlatform_homebrew
            [where path' = "''/formula/api''", THEN conjunct2, THEN conjunct2, THEN conjunct2] c5
    by simp
  from 1 2 3 4 5 show ?thesis by simp
qed

subsection \<open>The converted URL\<close>

lemma removeTrailingSlash_snoc: "removeTrailingSlash (g @ ''/'') = g"
  by (simp add: removeTrailingSlash_def)

lemma ends_slash_iff: "(\<exists>g. d = g @ ''/'') \<longleftrightarrow> (d \<noteq> [] \<and> last d = CHR ''/'')"
proof
  assume "\<exists>g. d = g @ ''/''"
  then show "d \<noteq> [] \<and> last d = CHR ''/''" by auto
next
  assume "d \<noteq> [] \<and> last d = CHR ''/''"
  then have "d = butlast d @ ''/''" using append_butlast_last_id [of d] by simp
  then show "\<exists>g. d = g @ ''/''" by blast
qed

lemma removeTrailingSlash_other:
  "\<not> (\<exists>g. d = g @ ''/'') \<Longrightarrow> removeTrailingSlash d = d"
  unfolding ends_slash_iff by (simp only: removeTrailingSlash_def if_False)

lemma performUrlConversion_eq:
  "parse u = Some urlObj \<Longrightarrow>
   performUrlConversion parse v u p =
     Inr (getXgetDomain parse v @ ''/'' @ key p
          @ adjustPathForPlatform (pathname urlObj @ search urlObj) (key p))"
  by (simp add: performUrlConversion_def Let_def)

text \<open>
  Claim C7, as stated, fails for some gateway domain strings. A value of the domain field
  that is not a URL (here \<^verbatim>\<open>gw.example\<close>, without a scheme) is not used at all: the default
  domain of \<^verbatim>\<open>getXgetDomain\<close> takes its place. And one slash is removed at the end, not
  every one: for \<^verbatim>\<open>https://gw.example//\<close> the domain in the result still ends with a slash.
\<close>

theorem performUrlConversion_gateway_counterexample:
  "performUrlConversion exampleURL ''gw.example'' ''https://github.com/torvalds/linux''
       \<lparr>key = ''gh'', name = ''gh'', baseUrl = ''https://github.com''\<rparr>
     = Inr ''https://xget.a1u06h9fe9y5bozbmgz3.qzz.io/gh/torvalds/linux''
   \<and> performUrlConversion exampleURL ''https://gw.example//'' ''https://github.com/torvalds/linux''
       \<lparr>key = ''gh'', name = ''gh'', baseUrl = ''https://github.com''\<rparr>
     = Inr ''https://gw.example//gh/torvalds/linux''"
  by code_simp

text \<open>
  Claim C7, amended. Let \<open>d\<close> be the value of the domain field with the white space at
  both ends removed, and let the URL to convert parse. If \<open>d\<close> is not empty and parses as
  a URL, the result is \<open>d\<close> without one slash at its end (if it has one), then \<^verbatim>\<open>/\<close>,
  the platform key as it is, and the adjusted path. Otherwise the default domain
  \<^verbatim>\<open>https://xget.a1u06h9fe9y5bozbmgz3.qzz.io\<close> stands in place of \<open>d\<close>.
\<close>

theorem performUrlConversion_composes:
  assumes "parse u = Some urlObj"
  shows
    "(parse (trim v) \<noteq> None \<and> trim v = g @ ''/''
        \<longrightarrow> performUrlConversion parse v u p =
              Inr (g @ ''/'' @ key p
                   @ adjustPathForPlatform (pathname urlObj @ search urlObj) (key p)))
   \<and> (parse (trim v) \<noteq> None \<and> trim v \<noteq> [] \<and> \<not> (\<exists>g. trim v = g @ ''/'')
        \<longrightarrow> performUrlConversion parse v u p =
              Inr (trim v @ ''/'' @ key p
                   @ adjustPathForPlatform (pathname urlObj @ search urlObj) (key p)))
   \<and> (parse (trim v) = None \<or> trim v = []
        \<longrightarrow> performUrlConversion parse v u p =
              Inr (''https://xget.a1u06h9fe9y5bozbmgz3.qzz.io'' @ ''/'' @ key p
                   @ adjustPathForPlatform (pathname urlObj @ search urlObj) (key p)))"
proof (intro conjI impI)
  assume a: "parse (trim v) \<noteq> None \<and> trim v = g @ ''/''"
  then have "getXgetDomain parse v = g"
    by (auto simp: getXgetDomain_def isValidUrl_def removeTrailingSlash_snoc)
  then show "performUrlConversion parse v u p =
              Inr (g @ ''/'' @ key p
                   @ adjustPathForPlatform (pathname urlObj @ search urlObj) (key p))"
    by (simp only: performUrlConversion_eq [where parse = parse, OF assms])
next
  assume a: "parse (trim v) \<noteq> None \<and> trim v \<noteq> [] \<and> \<not> (\<exists>g. trim v = g @ ''/'')"
  then have "removeTrailingSlash (trim v) = trim v" by (simp add: removeTrailingSlash_other)
  with a have "getXgetDomain parse v = trim v"
    by (auto simp: getXgetDomain_def isValidUrl_def)
  then show "performUrlConversion parse v u p =
              Inr (trim v @ ''/'' @ key p
                   @ adjustPathForPlatform (pathname urlObj @ search urlObj) (key p))"
    by (simp only: performUrlConversion_eq [where parse = parse, OF assms])
next
  assume a: "parse (trim v) = None \<or> trim v = []"
  then have "getXgetDomain parse v = ''https://xget.a1u06h9fe9y5bozbmgz3.qzz.io''"
    by (auto simp: getXgetDomain_def isValidUrl_def defaultXgetDomain_def)
  then show "performUrlConversion parse v u p =
              Inr (''https://xget.a1u06h9fe9y5bozbmgz3.qzz.io'' @ ''/'' @ key p
                   @ adjustPathForPlatform (pathname urlObj @ search urlObj) (key p))"
    by (simp only: performUrlConversion_eq [where parse = parse, OF assms])
qed

theorem performUrlConversion_composes_witness:
  "performUrlConversion exampleURL '' https://gw.example/ '' ''https://github.com/torvalds/linux''
       \<lparr>key = ''gh'', name = ''gh'', baseUrl = ''https://github.com''\<rparr>
     = Inr ''https://gw.example/gh/torvalds/linux''
   \<and> performUrlConversion exampleURL ''https://example.org/x'' ''https://github.com/torvalds/linux''
       \<lparr>key = ''gh'', name = ''gh'', baseUrl = ''https://github.com''\<rparr>
     = Inr ''https://example.org/x/gh/torvalds/linux''
   \<and> performUrlConversion exampleURL ''gw.example'' ''https://github.com/torvalds/linux''
       \<lparr>key = ''gh'', name = ''gh'', baseUrl = ''https://github.com''\<rparr>
     = Inr ''https://xget.a1u06h9fe9y5bozbmgz3.qzz.io/gh/torvalds/linux''"
proof -
  let ?p = "\<lparr>key = ''gh'', name = ''gh'', baseUrl = ''https://github.com''\<rparr>"
  have u: "exampleURL ''https://github.com/torvalds/linux''
             = Some (httpsUrl ''github.com'' ''/torvalds/linux'')"
    by code_simp
  have a: "adjustPathForPlatform
             (pathname (httpsUrl ''github.com'' ''/torvalds/linux'')
                @ search (httpsUrl ''github.com'' ''/torvalds/linux'')) ''gh''
           = ''/torvalds/linux''"
    by code_simp
  have t1: "trim '' https://gw.example/ '' = ''https://gw.example'' @ ''/''" by code_simp
  have v1: "exampleURL (trim '' https://gw.example/ '') \<noteq> None" by code_simp
  have t2: "trim ''https://example.org/x'' = ''https://example.org/x''" by code_simp
  have v2: "exampleURL (trim ''https://example.org/x'') \<noteq> None" by code_simp
  have n2: "\<not> (\<exists>g. trim ''https://example.org/x'' = g @ ''/'')"
    unfolding ends_slash_iff t2 by simp
  have v3: "exampleURL (trim ''gw.example'') = None" by code_simp
  note T = performUrlConversion_composes [where parse = exampleURL and p = ?p, OF u]
  have 1: "performUrlConversion exampleURL '' https://gw.example/ ''
             ''https://github.com/torvalds/linux'' ?p = Inr ''https://gw.example/gh/torvalds/linux''"
    using T [where v = "'' https://gw.example/ ''" and g = "''https://gw.example''", THEN conjunct1]
          t1 v1
    by (simp add: a)
  have 2: "performUrlConversion exampleURL ''https://example.org/x''
             ''https://github.com/torvalds/linux'' ?p = Inr ''https://example.org/x/gh/torvalds/linux''"
    using T [where v = "''https://example.org/x''", THEN conjunct2, THEN conjunct1] t2 v2 n2
    by (simp add: a)
  have 3: "performUrlConversion exampleURL ''gw.example''
             ''https://github.com/torvalds/linux'' ?p
           = Inr ''https://xget.a1u06h9fe9y5bozbmgz3.qzz.io/gh/torvalds/linux''"
    using T [where v = "''gw.example''", THEN conjunct2, THEN conjunct2] v3
    by (simp add: a)
  from 1 2 3 show ?thesis by simp
qed

subsection \<open>Strings that are not URLs\<close>

text \<open>
  Claim C8, as stated, fails: for a string that is not a URL \<^verbatim>\<open>detectPlatform\<close> returns
  \<^verbatim>\<open>null\<close> from its \<^verbatim>\<open>catch\<close>, the value it also returns for a URL that no platform
  matches.
\<close>

theorem detectPlatform_invalid_counterexample:
  "exampleURL ''not a url'' = None
   \<and> exampleURL ''https://example.org/x'' \<noteq> None
   \<and> detectPlatform exampleURL [(''npm'', ''https://registry.npmjs.org'')] ''not a url'' = None
   \<and> detectPlatform exampleURL [(''npm'', ''https://registry.npmjs.org'')] ''https://example.org/x''
       = None"
  by code_simp

text \<open>
  Claim C8, amended. For a string that is not a URL \<^verbatim>\<open>detectPlatform\<close> returns \<^verbatim>\<open>null\<close>,
  as for a URL without a match, and throws nothing. The two cases are told apart by the
  caller. \<^verbatim>\<open>handleUrlInput\<close> trims the value of the field; for a value that is empty after
  trimming it resets the display and shows no message; otherwise it tests \<^verbatim>\<open>isValidUrl\<close>
  first and shows the invalid-format message for a string that is not a URL, and the
  unsupported-platform message for a URL on which \<^verbatim>\<open>detectPlatform\<close> returns \<^verbatim>\<open>null\<close>.
\<close>

theorem invalid_url_outcomes:
  "(parse u = None \<longrightarrow> detectPlatform parse reg u = None)
   \<and> (trim w \<noteq> [] \<and> parse (trim w) = None
        \<longrightarrow> handleUrlInput parse reg v w = PlatformError InvalidUrlFormat)
   \<and> (trim w \<noteq> [] \<and> parse (trim w) \<noteq> None \<and> detectPlatform parse reg (trim w) = None
        \<longrightarrow> handleUrlInput parse reg v w = PlatformError PlatformUnsupported)
   \<and> (trim w = [] \<longrightarrow> handleUrlInput parse reg v w = Cleared)"
  by (auto simp: detectPlatform_def handleUrlInput_def isValidUrl_def Let_def
           split: option.splits)

theorem invalid_url_outcomes_witness:
  "detectPlatform exampleURL [(''npm'', ''https://registry.npmjs.org'')] ''not a url'' = None
   \<and> handleUrlInput exampleURL [(''npm'', ''https://registry.npmjs.org'')] [] '' not a url ''
       = PlatformError InvalidUrlFormat
   \<and> handleUrlInput exampleURL [(''npm'', ''https://registry.npmjs.org'')] [] ''https://example.org/x''
       = PlatformError PlatformUnsupported
   \<and> exampleURL [] = None
   \<and> handleUrlInput exampleURL [(''npm'', ''https://registry.npmjs.org'')] [] ''   '' = Cleared"
proof -
  have n: "exampleURL ''not a url'' = None" by code_simp
  have t1: "trim '' not a url '' = ''not a url''" by code_simp
  have t2: "trim ''https://example.org/x'' = ''https://example.org/x''" by code_simp
  have v2: "exampleURL ''https://example.org/x'' \<noteq> None" by code_simp
  have d2: "detectPlatform exampleURL [(''npm'', ''https://registry.npmjs.org'')]
              ''https://example.org/x'' = None"
    by code_simp
  note T = invalid_url_outcomes
             [where parse = exampleURL and reg = "[(''npm'', ''https://registry.npmjs.org'')]"
                and v = "[]"]
  have 1: "detectPlatform exampleURL [(''npm'', ''https://registry.npmjs.org'')] ''not a url'' = None"
    using T [where u = "''not a url''", THEN conjunct1] n by simp
  have 2: "handleUrlInput exampleURL [(''npm'', ''https://registry.npmjs.org'')] [] '' not a url ''
       = PlatformError InvalidUrlFormat"
    using T [where w = "'' not a url ''", THEN conjunct2, THEN conjunct1] n
    by (simp add: t1)
  have 3: "handleUrlInput exampleURL [(''npm'', ''https://registry.npmjs.org'')] []
             ''https://example.org/x'' = PlatformError PlatformUnsupported"
    using T [where w = "''https://example.org/x''", THEN conjunct2, THEN conjunct2,
               THEN conjunct1] v2 d2
    by (simp add: t2)
  have t4: "trim ''   '' = []" by code_simp
  have e4: "exampleURL [] = None" by code_simp
  have 4: "handleUrlInput exampleURL [(''npm'', ''https://registry.npmjs.org'')] [] ''   ''
             = Cleared"
    using T [where w = "''   ''", THEN conjunct2, THEN conjunct2, THEN conjunct2] t4
    by simp
  from 1 2 3 e4 4 show ?thesis by simp
qed

end
